theory Spec2Isabelle
  imports Main "HOL-Library.Word"
begin

unbundle bit_operations_syntax

section \<open>Machine model\<close>

text \<open>
  The file \<^verbatim>\<open>Implementation+COFF.cpp\<close> is compiled for Windows only. The model fixes the
  64-bit targets (LLP64): pointers, \<^verbatim>\<open>uintptr_t\<close> and \<^verbatim>\<open>size_t\<close> are 64-bit words,
  \<^verbatim>\<open>DWORD\<close> and \<^verbatim>\<open>LONG\<close> are 32-bit words, \<^verbatim>\<open>WORD\<close> is a 16-bit word, all little-endian.
  Arithmetic on them wraps as the machine's does.
\<close>

type_synonym byte = "8 word"
type_synonym addr = "64 word"
type_synonym wchar = "16 word"

text \<open>
  Process memory is a partial map from addresses to bytes. An address outside its domain is
  not mapped: reading it is an access violation, which ends the call without a return
  value. Every read of the model yields \<open>None\<close> in that case, and \<open>None\<close> propagates.
\<close>

type_synonym memory = "addr \<Rightarrow> byte option"

definition read_u16 :: "memory \<Rightarrow> addr \<Rightarrow> 16 word option" where
  "read_u16 mem a =
     (case mem a of None \<Rightarrow> None | Some b0 \<Rightarrow>
      case mem (a + 1) of None \<Rightarrow> None | Some b1 \<Rightarrow>
        Some (ucast b0 OR push_bit 8 (ucast b1)))"

definition read_u32 :: "memory \<Rightarrow> addr \<Rightarrow> 32 word option" where
  "read_u32 mem a =
     (case mem a of None \<Rightarrow> None | Some b0 \<Rightarrow>
      case mem (a + 1) of None \<Rightarrow> None | Some b1 \<Rightarrow>
      case mem (a + 2) of None \<Rightarrow> None | Some b2 \<Rightarrow>
      case mem (a + 3) of None \<Rightarrow> None | Some b3 \<Rightarrow>
        Some (ucast b0 OR push_bit 8 (ucast b1) OR push_bit 16 (ucast b2)
              OR push_bit 24 (ucast b3)))"

text \<open>
  A buffer of bytes mapped at a base address, and nothing else: the memory in which exactly
  the addresses \<open>base, \<dots>, base + length bytes - 1\<close> can be read.
\<close>

definition map_buffer :: "addr \<Rightarrow> byte list \<Rightarrow> memory" where
  "map_buffer b bytes =
     (\<lambda>a. if unat (a - b) < length bytes then Some (bytes ! unat (a - b)) else None)"

definition le16 :: "16 word \<Rightarrow> byte list" where
  "le16 w = [ucast w, ucast (drop_bit 8 w)]"

definition le32 :: "32 word \<Rightarrow> byte list" where
  "le32 w = [ucast w, ucast (drop_bit 8 w), ucast (drop_bit 16 w), ucast (drop_bit 24 w)]"

section \<open>Data model\<close>

text \<open>
  Modelled from the spec: the declarations of \<^verbatim>\<open>SMLImage\<close> and \<^verbatim>\<open>SMLSection\<close>, in
  \<^verbatim>\<open>Image.h\<close> and \<^verbatim>\<open>Section.h\<close>. An image is identified by a base address and carries a
  display name, empty where unresolved; a section is a pair of a start and a size. The
  fields are the ones the source file uses: \<^verbatim>\<open>image->base\<close>, \<^verbatim>\<open>name\<close>,
  \<^verbatim>\<open>outSection->start\<close>, \<^verbatim>\<open>outSection->size\<close> (here \<open>size_bytes\<close>: \<open>size\<close> is taken).
\<close>

record SMLImage =
  base :: addr
  name :: "wchar list"

record SMLSection =
  start :: addr
  size_bytes :: "64 word"

section \<open>The executable-image headers\<close>

text \<open>
  Modelled from the spec: the headers of an image, whose declarations are not part of the
  source file. The first header has a "new header offset" field; the second header, at
  that offset from the base, has a magic-signature field and the section count; the
  section table follows the second header at a distance derived from a header field; an
  entry of the table has a fixed 8-byte name field, a relative virtual address, a virtual
  size and a raw-data size. The structures \<^verbatim>\<open>IMAGE_DOS_HEADER\<close>, \<^verbatim>\<open>IMAGE_NT_HEADERS\<close>, \<^verbatim>\<open>IMAGE_FILE_HEADER\<close> and
  \<^verbatim>\<open>IMAGE_SECTION_HEADER\<close>, the macro \<^verbatim>\<open>IMAGE_FIRST_SECTION\<close> and the constants
  \<^verbatim>\<open>IMAGE_NT_SIGNATURE\<close> and \<^verbatim>\<open>IMAGE_SIZEOF_SHORT_NAME\<close> come from the Windows SDK header
  \<^verbatim>\<open>winnt.h\<close>. Each field access of the source is a read at the field's offset in the
  Portable Executable layout:

  \<^item> \<^verbatim>\<open>IMAGE_DOS_HEADER.e_lfanew\<close>: \<^verbatim>\<open>LONG\<close> at offset 60;
  \<^item> \<^verbatim>\<open>IMAGE_NT_HEADERS.Signature\<close>: \<^verbatim>\<open>DWORD\<close> at offset 0;
  \<^item> \<^verbatim>\<open>IMAGE_NT_HEADERS.FileHeader\<close> at offset 4, in it \<^verbatim>\<open>NumberOfSections\<close>
    (\<^verbatim>\<open>WORD\<close>, offset 2) and \<^verbatim>\<open>SizeOfOptionalHeader\<close> (\<^verbatim>\<open>WORD\<close>, offset 16);
  \<^item> \<^verbatim>\<open>IMAGE_NT_HEADERS.OptionalHeader\<close> at offset 24;
  \<^item> \<^verbatim>\<open>IMAGE_SECTION_HEADER\<close>, 40 bytes: \<^verbatim>\<open>Name\<close> (8 bytes) at offset 0,
    \<^verbatim>\<open>Misc.VirtualSize\<close> (\<^verbatim>\<open>DWORD\<close>) at 8, \<^verbatim>\<open>VirtualAddress\<close> (\<^verbatim>\<open>DWORD\<close>) at 12,
    \<^verbatim>\<open>SizeOfRawData\<close> (\<^verbatim>\<open>DWORD\<close>) at 16.
\<close>

definition IMAGE_NT_SIGNATURE :: "32 word" where
  "IMAGE_NT_SIGNATURE = 0x00004550"

definition IMAGE_SIZEOF_SHORT_NAME :: nat where
  "IMAGE_SIZEOF_SHORT_NAME = 8"

definition sizeof_IMAGE_SECTION_HEADER :: addr where
  "sizeof_IMAGE_SECTION_HEADER = 40"

definition e_lfanew :: "memory \<Rightarrow> addr \<Rightarrow> 32 word option" where
  "e_lfanew mem dosHeader = read_u32 mem (dosHeader + 60)"

definition Signature :: "memory \<Rightarrow> addr \<Rightarrow> 32 word option" where
  "Signature mem ntHeader = read_u32 mem ntHeader"

definition NumberOfSections :: "memory \<Rightarrow> addr \<Rightarrow> 16 word option" where
  "NumberOfSections mem ntHeader = read_u16 mem (ntHeader + 6)"

definition SizeOfOptionalHeader :: "memory \<Rightarrow> addr \<Rightarrow> 16 word option" where
  "SizeOfOptionalHeader mem ntHeader = read_u16 mem (ntHeader + 20)"

text \<open>
  \<^verbatim>\<open>IMAGE_FIRST_SECTION(nt)\<close> is the address \<^verbatim>\<open>nt + offsetof(IMAGE_NT_HEADERS, OptionalHeader)
  + nt->FileHeader.SizeOfOptionalHeader\<close>.
\<close>

definition IMAGE_FIRST_SECTION :: "memory \<Rightarrow> addr \<Rightarrow> addr option" where
  "IMAGE_FIRST_SECTION mem ntHeader =
     (case SizeOfOptionalHeader mem ntHeader of None \<Rightarrow> None
      | Some k \<Rightarrow> Some (ntHeader + 24 + ucast k))"

definition VirtualSize :: "memory \<Rightarrow> addr \<Rightarrow> 32 word option" where
  "VirtualSize mem section = read_u32 mem (section + 8)"

definition VirtualAddress :: "memory \<Rightarrow> addr \<Rightarrow> 32 word option" where
  "VirtualAddress mem section = read_u32 mem (section + 12)"

definition SizeOfRawData :: "memory \<Rightarrow> addr \<Rightarrow> 32 word option" where
  "SizeOfRawData mem section = read_u32 mem (section + 16)"

section \<open>Strings\<close>

text \<open>
  A \<^verbatim>\<open>const char *\<close> is seen through the bytes that can be read from it: offset \<open>i\<close> gives
  the byte at \<open>p + i\<close>, or \<open>None\<close> where that address is not mapped.

  The caller's \<^verbatim>\<open>sectionName\<close> is a C string, given as the list of bytes of its buffer and
  terminated by a NUL after them. A pointer into the image is read from memory.
\<close>

type_synonym chars = "nat \<Rightarrow> byte option"

definition c_str :: "byte list \<Rightarrow> chars" where
  "c_str s = (\<lambda>i. Some (if i < length s then s ! i else 0))"

definition chars_at :: "memory \<Rightarrow> addr \<Rightarrow> chars" where
  "chars_at mem p = (\<lambda>i. mem (p + of_nat i))"

text \<open>
  \<^verbatim>\<open>std::strncmp(s1, s2, n)\<close> of the C library: compares at most \<open>n\<close> characters, as
  unsigned bytes, and stops after a NUL. The result is zero when no difference was found,
  and has the sign of the first difference otherwise.
\<close>

fun strncmp :: "chars \<Rightarrow> chars \<Rightarrow> nat \<Rightarrow> int option" where
  "strncmp s1 s2 0 = Some 0"
| "strncmp s1 s2 (Suc n) =
     (case s1 0 of None \<Rightarrow> None | Some c1 \<Rightarrow>
      case s2 0 of None \<Rightarrow> None | Some c2 \<Rightarrow>
        if c1 \<noteq> c2 then Some (uint c1 - uint c2)
        else if c1 = 0 then Some 0
        else strncmp (s1 \<circ> Suc) (s2 \<circ> Suc) n)"

section \<open>Locating a section\<close>

text \<open>
  \<^verbatim>\<open>sml_findSection\<close> has four \<^verbatim>\<open>return\<close> statements. The model names the one taken:
  \<open>Invalid_Image_Format\<close> for the two \<^verbatim>\<open>return false\<close> of the header checks,
  \<open>Section_Found\<close> for \<^verbatim>\<open>return true\<close> with the values stored through \<^verbatim>\<open>outSection\<close>,
  \<open>Section_Not_Found\<close> for the \<^verbatim>\<open>return false\<close> after the loop.
\<close>

datatype exit = Invalid_Image_Format | Section_Found SMLSection | Section_Not_Found

text \<open>
  The body of the loop, for the entry that \<open>section\<close> points to: \<open>Some (Some s)\<close> when
  the body reaches \<^verbatim>\<open>return true\<close> having stored \<open>s\<close>, \<open>Some None\<close> when it falls
  through to the next iteration (by \<^verbatim>\<open>continue\<close> or at its end).
\<close>

definition examine_section ::
  "memory \<Rightarrow> addr \<Rightarrow> byte list \<Rightarrow> addr \<Rightarrow> SMLSection option option" where
  "examine_section mem dosHeader sectionName section =
     (case VirtualAddress mem section of None \<Rightarrow> None | Some va \<Rightarrow>
      if va = 0 then Some None
      else
        let start = dosHeader + ucast va in
        case VirtualSize mem section of None \<Rightarrow> None | Some vs \<Rightarrow>
        case SizeOfRawData mem section of None \<Rightarrow> None | Some rs \<Rightarrow>
        let size = (ucast (min vs rs) :: 64 word) in
        if start \<noteq> 0 \<and> size > 0
        then
          (case strncmp (c_str sectionName) (chars_at mem section) IMAGE_SIZEOF_SHORT_NAME of
             None \<Rightarrow> None
           | Some r \<Rightarrow>
               if r = 0 then Some (Some \<lparr>start = start, size_bytes = size\<rparr>)
               else Some None)
        else Some None)"

text \<open>
  The loop over the section table. \<open>section\<close> is the pointer to the current entry and the
  last argument the number of entries still to visit, \<^verbatim>\<open>sectionCount - i\<close>.
\<close>

fun scan_sections :: "memory \<Rightarrow> addr \<Rightarrow> byte list \<Rightarrow> addr \<Rightarrow> nat \<Rightarrow> exit option" where
  "scan_sections mem dosHeader sectionName section 0 = Some Section_Not_Found"
| "scan_sections mem dosHeader sectionName section (Suc n) =
     (case examine_section mem dosHeader sectionName section of
        None \<Rightarrow> None
      | Some (Some s) \<Rightarrow> Some (Section_Found s)
      | Some None \<Rightarrow>
          scan_sections mem dosHeader sectionName (section + sizeof_IMAGE_SECTION_HEADER) n)"

definition sml_findSection :: "memory \<Rightarrow> SMLImage \<Rightarrow> byte list \<Rightarrow> exit option" where
  "sml_findSection mem img sectionName =
     (let dosHeader = base img in
      case e_lfanew mem dosHeader of None \<Rightarrow> None | Some lfanew \<Rightarrow>
      if sint lfanew \<le> 0 then Some Invalid_Image_Format
      else
        let ntHeader = dosHeader + scast lfanew in
        if ntHeader = 0 then Some Invalid_Image_Format
        else
          case Signature mem ntHeader of None \<Rightarrow> None | Some sig \<Rightarrow>
          if sig \<noteq> IMAGE_NT_SIGNATURE then Some Invalid_Image_Format
          else
            case NumberOfSections mem ntHeader of None \<Rightarrow> None | Some sectionCount \<Rightarrow>
            case IMAGE_FIRST_SECTION mem ntHeader of None \<Rightarrow> None | Some section \<Rightarrow>
              scan_sections mem dosHeader sectionName section (unat sectionCount))"

text \<open>
  What the caller observes: the \<^verbatim>\<open>bool\<close> returned and the contents of \<^verbatim>\<open>*outSection\<close>,
  which is written only before \<^verbatim>\<open>return true\<close>.
\<close>

fun returned :: "SMLSection \<Rightarrow> exit \<Rightarrow> bool \<times> SMLSection" where
  "returned outSection Invalid_Image_Format = (False, outSection)"
| "returned outSection (Section_Found s) = (True, s)"
| "returned outSection Section_Not_Found = (False, outSection)"

subsection \<open>The section table as a list\<close>

text \<open>
  The addresses of the entries the loop visits, in the order it visits them: \<open>n\<close> entries of
  \<^verbatim>\<open>sizeof(IMAGE_SECTION_HEADER)\<close> bytes from \<open>section\<close> on.
\<close>

fun entry_addrs :: "addr \<Rightarrow> nat \<Rightarrow> addr list" where
  "entry_addrs section 0 = []"
| "entry_addrs section (Suc n) =
     section # entry_addrs (section + sizeof_IMAGE_SECTION_HEADER) n"

text \<open>
  The entries of the section table of an image, located as \<^verbatim>\<open>sml_findSection\<close> locates
  them: the table starts at \<^verbatim>\<open>IMAGE_FIRST_SECTION\<close> of the header at \<open>base + e_lfanew\<close> and
  has \<^verbatim>\<open>NumberOfSections\<close> entries. The list is empty where a header field cannot be read.
\<close>

definition section_entries :: "memory \<Rightarrow> SMLImage \<Rightarrow> addr list" where
  "section_entries mem img =
     (case e_lfanew mem (base img) of None \<Rightarrow> [] | Some lfanew \<Rightarrow>
      let ntHeader = base img + scast lfanew in
      case NumberOfSections mem ntHeader of None \<Rightarrow> [] | Some sectionCount \<Rightarrow>
      case IMAGE_FIRST_SECTION mem ntHeader of None \<Rightarrow> [] | Some section \<Rightarrow>
        entry_addrs section (unat sectionCount))"

text \<open>
  One entry of the table read as a whole: the eight bytes of its name field and the three
  sizes and addresses that \<^verbatim>\<open>sml_findSection\<close> consults.
\<close>

record section_header =
  entry_name :: "byte list"
  entry_virtual_size :: "32 word"
  entry_rva :: "32 word"
  entry_raw_size :: "32 word"

fun read_bytes :: "memory \<Rightarrow> addr \<Rightarrow> nat \<Rightarrow> byte list option" where
  "read_bytes mem a 0 = Some []"
| "read_bytes mem a (Suc n) =
     (case mem a of None \<Rightarrow> None | Some b \<Rightarrow>
      case read_bytes mem (a + 1) n of None \<Rightarrow> None | Some bs \<Rightarrow> Some (b # bs))"

definition read_entry :: "memory \<Rightarrow> addr \<Rightarrow> section_header option" where
  "read_entry mem section =
     (case read_bytes mem section IMAGE_SIZEOF_SHORT_NAME of None \<Rightarrow> None | Some nm \<Rightarrow>
      case VirtualSize mem section of None \<Rightarrow> None | Some vs \<Rightarrow>
      case VirtualAddress mem section of None \<Rightarrow> None | Some va \<Rightarrow>
      case SizeOfRawData mem section of None \<Rightarrow> None | Some rs \<Rightarrow>
        Some \<lparr>entry_name = nm, entry_virtual_size = vs, entry_rva = va, entry_raw_size = rs\<rparr>)"

subsection \<open>The search as the specification words it\<close>

text \<open>
  The specification's algorithm on a table that has been read: the size of a candidate is
  the minimum of its declared virtual size and its declared raw-data size; the first entry,
  in table order, with a nonzero relative virtual address, a non-null start, a size above
  zero and a matching name is returned; when there is none the section is not found.
  A name matches a name field when the two hold the same C string, up to eight characters:
  the bytes before the first NUL, or the first eight bytes.
\<close>

definition C_string :: "byte list \<Rightarrow> byte list" where
  "C_string s = takeWhile (\<lambda>c. c \<noteq> 0) s"

definition name_matches :: "byte list \<Rightarrow> byte list \<Rightarrow> bool" where
  "name_matches sectionName field \<longleftrightarrow>
     take 8 (C_string sectionName) = take 8 (C_string field)"

definition spec_size :: "section_header \<Rightarrow> 64 word" where
  "spec_size e = ucast (min (entry_virtual_size e) (entry_raw_size e))"

definition spec_start :: "addr \<Rightarrow> section_header \<Rightarrow> addr" where
  "spec_start b e = b + ucast (entry_rva e)"

definition spec_candidate :: "addr \<Rightarrow> byte list \<Rightarrow> section_header \<Rightarrow> bool" where
  "spec_candidate b sectionName e \<longleftrightarrow>
     entry_rva e \<noteq> 0 \<and> spec_size e > 0 \<and> spec_start b e \<noteq> 0
     \<and> name_matches sectionName (entry_name e)"

definition spec_findSection :: "addr \<Rightarrow> byte list \<Rightarrow> section_header list \<Rightarrow> exit" where
  "spec_findSection b sectionName entries =
     (case find (spec_candidate b sectionName) entries of
        None \<Rightarrow> Section_Not_Found
      | Some e \<Rightarrow> Section_Found \<lparr>start = spec_start b e, size_bytes = spec_size e\<rparr>)"

section \<open>Enumerating the loaded images\<close>

text \<open>
  Modelled from the spec: the operating system as the calls of the source see it. \<open>modules\<close> is the list of the
  handles of the modules loaded in the process, \<open>None\<close> when the list cannot be queried;
  \<open>GetModuleFileNameW\<close> gives, for a handle, the number of characters the call reports and
  the string it leaves in the buffer of the image.
\<close>

record process =
  modules :: "addr list option"
  GetModuleFileNameW :: "addr \<Rightarrow> nat \<times> wchar list"

definition sizeof_HMODULE :: nat where
  "sizeof_HMODULE = 8"

text \<open>
  Modelled from the spec: the query for the list of loaded module handles into a bounded
  buffer, \<^verbatim>\<open>EnumProcessModules(process, lphModule, cb, lpcbNeeded)\<close> of the Windows API. It fails,
  or it stores as many handles as fit in \<open>cb\<close> bytes and sets \<^verbatim>\<open>*lpcbNeeded\<close>, a
  \<^verbatim>\<open>DWORD\<close>, to the number of bytes that all handles need.
\<close>

definition EnumProcessModules :: "process \<Rightarrow> nat \<Rightarrow> (addr list \<times> 32 word) option" where
  "EnumProcessModules p cb =
     (case modules p of None \<Rightarrow> None
      | Some ms \<Rightarrow> Some (take (cb div sizeof_HMODULE) ms, of_nat (length ms * sizeof_HMODULE)))"

text \<open>
  The constructor \<^verbatim>\<open>SMLImage::SMLImage(const void *base)\<close>: the name is the empty string
  when the call reports no character.
\<close>

definition SMLImage_of :: "process \<Rightarrow> addr \<Rightarrow> SMLImage" where
  "SMLImage_of p h =
     (let (n, buf) = GetModuleFileNameW p h
      in \<lparr>base = h, name = (if n = 0 then [] else buf)\<rparr>)"

text \<open>
  The visitor \<^verbatim>\<open>body(&image, &stop, context)\<close> is a function of the image and of the state
  behind \<^verbatim>\<open>context\<close>, giving the value it leaves in \<^verbatim>\<open>stop\<close> (\<^verbatim>\<open>false\<close> before the
  call) and the new state. The enumeration returns the final state and the log of the calls
  of the visitor: the image passed and the value of \<^verbatim>\<open>stop\<close> after the call.
\<close>

type_synonym 'c SMLImageEnumerator = "SMLImage \<Rightarrow> 'c \<Rightarrow> bool \<times> 'c"

function enumerate_loop ::
  "process \<Rightarrow> 'c SMLImageEnumerator \<Rightarrow> addr list \<Rightarrow> nat \<Rightarrow> nat \<Rightarrow> 'c
     \<Rightarrow> 'c \<times> (SMLImage \<times> bool) list" where
  "enumerate_loop p body hModules hModuleCount i ctx =
     (if i < hModuleCount
      then
        let image = SMLImage_of p (hModules ! i);
            (stop, ctx') = body image ctx
        in if stop then (ctx', [(image, stop)])
           else
             let (ctx'', calls) = enumerate_loop p body hModules hModuleCount (i + 1) ctx'
             in (ctx'', (image, stop) # calls)
      else (ctx, []))"
  by pat_completeness auto
termination
  by (relation "measure (\<lambda>(p, body, hModules, hModuleCount, i, ctx). hModuleCount - i)") auto

definition sml_enumerateImages ::
  "process \<Rightarrow> 'c SMLImageEnumerator \<Rightarrow> 'c \<Rightarrow> 'c \<times> (SMLImage \<times> bool) list" where
  "sml_enumerateImages p body ctx =
     (case EnumProcessModules p (1024 * sizeof_HMODULE) of
        None \<Rightarrow> (ctx, [])
      | Some (hModules, byteCountNeeded) \<Rightarrow>
          let hModuleCount = min 1024 (unat byteCountNeeded div sizeof_HMODULE)
          in enumerate_loop p body hModules hModuleCount 0 ctx)"

text \<open>
  The visits of a list of handles, one after the other, up to the first visit that leaves
  \<^verbatim>\<open>stop\<close> set: the loop of \<^verbatim>\<open>sml_enumerateImages\<close> without its array and its index.
\<close>

fun visit_handles ::
  "process \<Rightarrow> 'c SMLImageEnumerator \<Rightarrow> addr list \<Rightarrow> 'c \<Rightarrow> 'c \<times> (SMLImage \<times> bool) list" where
  "visit_handles p body [] ctx = (ctx, [])"
| "visit_handles p body (h # hs) ctx =
     (let image = SMLImage_of p h;
          (stop, ctx') = body image ctx
      in if stop then (ctx', [(image, stop)])
         else
           let (ctx'', calls) = visit_handles p body hs ctx'
           in (ctx'', (image, stop) # calls))"

section \<open>Copying the name of an image\<close>

text \<open>
  How the body of a function with a result type ends: at a \<^verbatim>\<open>return\<close> statement, with
  its value, or at the closing brace, with none.
\<close>

datatype 'a completion = Returns 'a | Falls_Off_End

text \<open>
  \<^verbatim>\<open>wchar_t *sml_copyImageName(const SMLImage *image) { }\<close>: the body has no statement.
\<close>

definition sml_copyImageName :: "SMLImage \<Rightarrow> addr completion" where
  "sml_copyImageName img = Falls_Off_End"

section \<open>Concrete images\<close>

text \<open>
  Small images for trying the operations: a 64-byte first header whose \<^verbatim>\<open>e_lfanew\<close> is 64,
  the signature, a file header for the given number of sections with no optional header,
  the section table at offset 88, and the data after it.
\<close>

definition name_field :: "byte list \<Rightarrow> byte list" where
  "name_field s = take 8 (s @ replicate 8 0)"

definition section_entry :: "byte list \<Rightarrow> 32 word \<Rightarrow> 32 word \<Rightarrow> 32 word \<Rightarrow> byte list" where
  "section_entry nm vs va rs = name_field nm @ le32 vs @ le32 va @ le32 rs @ replicate 20 0"

definition example_image :: "byte list list \<Rightarrow> byte list \<Rightarrow> byte list" where
  "example_image entries data =
     replicate 60 0 @ le32 64
     @ le32 0x4550 @ le16 0x8664 @ le16 (of_nat (length entries)) @ replicate 12 0
     @ le16 0 @ le16 0
     @ concat entries @ data"

definition TESTDAT :: "byte list" where
  "TESTDAT = [0x54, 0x45, 0x53, 0x54, 0x44, 0x41, 0x54]"

definition TESTDATA :: "byte list" where
  "TESTDATA = [0x54, 0x45, 0x53, 0x54, 0x44, 0x41, 0x54, 0x41]"

definition TESTDATAX :: "byte list" where
  "TESTDATAX = [0x54, 0x45, 0x53, 0x54, 0x44, 0x41, 0x54, 0x41, 0x58]"

definition main_image :: SMLImage where
  "main_image = \<lparr>base = 0x10000, name = []\<rparr>"

text \<open>One section \<^verbatim>\<open>TESTDAT\<close> of 16 bytes at relative address 128: 144 bytes in all.\<close>

definition one_section :: "byte list" where
  "one_section = example_image [section_entry TESTDAT 16 128 16] (replicate 16 0xAA)"

text \<open>
  Two entries named \<^verbatim>\<open>TESTDAT\<close>: the first has a zero relative address, the second is at
  relative address 168 with virtual size 32 and 8 bytes of raw data.
\<close>

definition two_sections :: "byte list" where
  "two_sections =
     example_image [section_entry TESTDAT 16 0 16, section_entry TESTDAT 32 168 8]
       (replicate 8 0xBB)"

text \<open>A 128-byte image whose only entry declares a relative address far beyond it.\<close>

definition far_section :: "byte list" where
  "far_section = example_image [section_entry TESTDAT 16 0x1000 16] []"

text \<open>
  An entry whose name field is \<^verbatim>\<open>AB\<close>, a NUL, \<^verbatim>\<open>XYZ\<close> and two NULs, and a requested name
  that differs from it after the first NUL.
\<close>

definition AB_XYZ :: "byte list" where
  "AB_XYZ = [0x41, 0x42, 0, 0x58, 0x59, 0x5A, 0, 0]"

definition AB_CDE :: "byte list" where
  "AB_CDE = [0x41, 0x42, 0, 0x43, 0x44, 0x45, 0, 0]"

definition nul_section :: "byte list" where
  "nul_section = example_image [section_entry AB_XYZ 16 128 16] (replicate 16 0xAA)"

text \<open>One section named with the eight bytes \<^verbatim>\<open>TESTDATA\<close>.\<close>

definition eight_section :: "byte list" where
  "eight_section = example_image [section_entry TESTDATA 16 128 16] (replicate 16 0xAA)"

text \<open>
  A process with three modules, whose names the system does not give, and one whose module
  list cannot be queried. The visitors count their calls; one stops at the module loaded at
  \<^verbatim>\<open>0x20000\<close>, the other never stops.
\<close>

definition three_modules :: process where
  "three_modules =
     \<lparr>modules = Some [0x10000, 0x20000, 0x30000], GetModuleFileNameW = (\<lambda>h. (0, []))\<rparr>"

definition no_module_list :: process where
  "no_module_list = \<lparr>modules = None, GetModuleFileNameW = (\<lambda>h. (0, []))\<rparr>"

definition stop_at_second :: "nat SMLImageEnumerator" where
  "stop_at_second img n = (base img = 0x20000, n + 1)"

definition never_stop :: "nat SMLImageEnumerator" where
  "never_stop img n = (False, n + 1)"

text \<open>A process with 1030 modules, loaded at the addresses \<open>0, 1, \<dots>, 1029\<close>.\<close>

definition many_modules :: process where
  "many_modules =
     \<lparr>modules = Some (map of_nat [0..<1030]), GetModuleFileNameW = (\<lambda>h. (0, []))\<rparr>"

text \<open>A 64-byte buffer of zeros, and one whose \<^verbatim>\<open>e_lfanew\<close> points 4096 bytes ahead.\<close>

definition zero_buffer :: "byte list" where
  "zero_buffer = replicate 64 0"

definition dangling_header :: "byte list" where
  "dangling_header = replicate 60 0 @ le32 0x1000"


section \<open>Properties of the string comparison\<close>

lemma strncmp_cong:
  "(\<And>i. i < n \<Longrightarrow> s1 i = t1 i) \<Longrightarrow> (\<And>i. i < n \<Longrightarrow> s2 i = t2 i)
   \<Longrightarrow> strncmp s1 s2 n = strncmp t1 t2 n"
proof (induction n arbitrary: s1 s2 t1 t2)
  case 0
  show ?case by simp
next
  case (Suc n)
  have h1: "s1 0 = t1 0" and h2: "s2 0 = t2 0"
    using Suc.prems by simp_all
  have rec: "strncmp (s1 \<circ> Suc) (s2 \<circ> Suc) n = strncmp (t1 \<circ> Suc) (t2 \<circ> Suc) n"
    by (rule Suc.IH) (simp_all add: Suc.prems)
  show ?case
    by (simp add: h1 h2 rec split: option.split)
qed

lemma c_str_take: "i < n \<Longrightarrow> c_str (take n s) i = c_str s i"
  by (simp add: c_str_def)

lemma c_str_Nil_Suc: "c_str [] \<circ> Suc = c_str []"
  by (rule ext) (simp add: c_str_def)

lemma c_str_Cons_Suc: "c_str (x # xs) \<circ> Suc = c_str xs"
  by (rule ext) (simp add: c_str_def)

lemma c_str_0: "c_str [] 0 = Some 0" "c_str (x # xs) 0 = Some x"
  by (simp_all add: c_str_def)

lemma strncmp_c_str_total: "\<exists>r. strncmp (c_str a) (c_str b) n = Some r"
proof (induction n arbitrary: a b)
  case 0
  show ?case by simp
next
  case (Suc n)
  show ?case
    by (cases a; cases b) (simp_all add: c_str_0 c_str_Nil_Suc c_str_Cons_Suc Suc.IH)
qed

lemma strncmp_c_str_zero:
  "strncmp (c_str a) (c_str b) n = Some 0 \<longleftrightarrow> take n (C_string a) = take n (C_string b)"
proof (induction n arbitrary: a b)
  case 0
  show ?case by simp
next
  case (Suc n)
  show ?case
  proof (cases a)
    case Nil
    then show ?thesis
      by (cases b) (auto simp: c_str_0 C_string_def c_str_Nil_Suc c_str_Cons_Suc word_uint_eq_iff)
  next
    case (Cons x xs)
    note a = Cons
    show ?thesis
    proof (cases b)
      case Nil
      then show ?thesis using a
        by (auto simp: c_str_0 C_string_def c_str_Nil_Suc c_str_Cons_Suc word_uint_eq_iff)
    next
      case (Cons y ys)
      then show ?thesis using a Suc.IH [of xs ys]
        by (auto simp: c_str_0 C_string_def c_str_Nil_Suc c_str_Cons_Suc word_uint_eq_iff)
    qed
  qed
qed

section \<open>Properties of the section search\<close>

lemma examine_section_SomeD:
  assumes "examine_section mem b nm p = Some (Some s)"
  shows "\<exists>va vs rs. VirtualAddress mem p = Some va \<and> va \<noteq> 0
           \<and> VirtualSize mem p = Some vs \<and> SizeOfRawData mem p = Some rs
           \<and> s = \<lparr>start = b + ucast va, size_bytes = ucast (min vs rs)\<rparr>
           \<and> b + ucast va \<noteq> 0 \<and> 0 < (ucast (min vs rs) :: 64 word)
           \<and> strncmp (c_str nm) (chars_at mem p) IMAGE_SIZEOF_SHORT_NAME = Some 0"
  using assms
  by (auto simp: examine_section_def Let_def split: option.splits if_splits)

lemma scan_sections_found:
  "scan_sections mem b nm p n = Some (Section_Found s)
   \<Longrightarrow> \<exists>e \<in> set (entry_addrs p n). examine_section mem b nm e = Some (Some s)"
proof (induction n arbitrary: p)
  case 0
  then show ?case by simp
next
  case (Suc n)
  show ?case
  proof (cases "examine_section mem b nm p")
    case None
    with Suc.prems show ?thesis by simp
  next
    case (Some r)
    show ?thesis
    proof (cases r)
      case None
      with Some Suc.prems
      have "scan_sections mem b nm (p + sizeof_IMAGE_SECTION_HEADER) n = Some (Section_Found s)"
        by simp
      from Suc.IH [OF this] show ?thesis by auto
    next
      case (Some s')
      with \<open>examine_section mem b nm p = Some r\<close> Suc.prems show ?thesis by simp
    qed
  qed
qed

lemma scan_sections_not_invalid:
  "scan_sections mem b nm p n \<noteq> Some Invalid_Image_Format"
  by (induction n arbitrary: p) (auto split: option.splits)

lemma findSection_found:
  assumes "sml_findSection mem img nm = Some (Section_Found s)"
  shows "\<exists>e \<in> set (section_entries mem img). examine_section mem (base img) nm e = Some (Some s)"
  using assms
  by (auto simp: sml_findSection_def section_entries_def Let_def
           split: option.splits if_splits dest: scan_sections_found)

lemma read_bytes_nth:
  "read_bytes mem a n = Some bs \<Longrightarrow> length bs = n \<and> (\<forall>i<n. mem (a + of_nat i) = Some (bs ! i))"
proof (induction n arbitrary: a bs)
  case 0
  then show ?case by simp
next
  case (Suc n)
  from Suc.prems obtain x xs where x: "mem a = Some x"
    and xs: "read_bytes mem (a + 1) n = Some xs" and bs: "bs = x # xs"
    by (auto split: option.splits)
  from Suc.IH [OF xs] have len: "length xs = n"
    and nth: "\<And>i. i < n \<Longrightarrow> mem (a + 1 + of_nat i) = Some (xs ! i)"
    by simp_all
  have "mem (a + of_nat i) = Some (bs ! i)" if "i < Suc n" for i
  proof (cases i)
    case 0
    then show ?thesis by (simp add: x bs)
  next
    case (Suc j)
    with that nth [of j] show ?thesis by (simp add: bs add.assoc)
  qed
  then show ?case by (simp add: bs len)
qed

lemma strncmp_read_bytes:
  assumes "read_bytes mem p n = Some field"
  shows "strncmp s (chars_at mem p) n = strncmp s (c_str field) n"
proof (rule strncmp_cong)
  fix i assume "i < n"
  with read_bytes_nth [OF assms] show "chars_at mem p i = c_str field i"
    by (simp add: chars_at_def c_str_def)
qed simp

lemma examine_section_read_entry:
  assumes "read_entry mem p = Some e"
  shows "examine_section mem b nm p =
           Some (if spec_candidate b nm e
                 then Some \<lparr>start = spec_start b e, size_bytes = spec_size e\<rparr> else None)"
proof -
  from assms obtain field where field: "read_bytes mem p IMAGE_SIZEOF_SHORT_NAME = Some field"
    and vs: "VirtualSize mem p = Some (entry_virtual_size e)"
    and va: "VirtualAddress mem p = Some (entry_rva e)"
    and rs: "SizeOfRawData mem p = Some (entry_raw_size e)"
    and nm: "entry_name e = field"
    by (auto simp: read_entry_def split: option.splits)
  obtain r where r: "strncmp (c_str nm) (c_str field) IMAGE_SIZEOF_SHORT_NAME = Some r"
    using strncmp_c_str_total by blast
  have rz: "r = 0 \<longleftrightarrow> name_matches nm field"
    using r strncmp_c_str_zero [of nm field IMAGE_SIZEOF_SHORT_NAME]
    by (simp add: name_matches_def IMAGE_SIZEOF_SHORT_NAME_def)
  show ?thesis
    by (simp add: examine_section_def vs va rs strncmp_read_bytes [OF field] r rz Let_def
          spec_candidate_def spec_start_def spec_size_def nm)
qed

lemma scan_sections_refines:
  "map (read_entry mem) (entry_addrs p n) = map Some es
   \<Longrightarrow> scan_sections mem b nm p n = Some (spec_findSection b nm es)"
proof (induction n arbitrary: p es)
  case 0
  then show ?case by (simp add: spec_findSection_def)
next
  case (Suc n)
  from Suc.prems obtain e es' where es: "es = e # es'"
    and e: "read_entry mem p = Some e"
    and rest: "map (read_entry mem) (entry_addrs (p + sizeof_IMAGE_SECTION_HEADER) n) = map Some es'"
    by (cases es) auto
  show ?case
    using Suc.IH [OF rest]
    by (simp add: es examine_section_read_entry [OF e] spec_findSection_def)
qed

lemma ucast_rva_unat: "unat (ucast (va :: 32 word) :: 64 word) = unat va"
proof -
  have "unat va < 2 ^ 32" using unsigned_less [of va] by simp
  then have "unat va < 2 ^ 64" by simp
  then show ?thesis by (simp add: unsigned_ucast_eq take_bit_nat_eq_self)
qed

lemma start_in_range_iff:
  fixes b :: addr and va :: "32 word"
  assumes "unat b + m \<le> 2 ^ 64"
  shows "(b \<le> b + ucast va \<and> unat (b + ucast va) < unat b + m) \<longleftrightarrow> unat va < m"
proof
  assume h: "b \<le> b + ucast va \<and> unat (b + ucast va) < unat b + m"
  then have "unat (b + ucast va) = unat b + unat (ucast va :: 64 word)"
    by (simp add: unat_plus_simple)
  with h show "unat va < m" by (simp add: ucast_rva_unat)
next
  assume h: "unat va < m"
  with assms have "unat b + unat (ucast va :: 64 word) < 2 ^ LENGTH(64)"
    by (simp add: ucast_rva_unat)
  then have eq: "unat (b + ucast va) = unat b + unat (ucast va :: 64 word)"
    by (simp only: unat_add_lem [THEN iffD1])
  show "b \<le> b + ucast va \<and> unat (b + ucast va) < unat b + m"
    using h by (simp add: word_le_nat_alt eq ucast_rva_unat)
qed

lemma start_neq_base:
  fixes b :: addr and va :: "32 word"
  assumes "va \<noteq> 0"
  shows "b + ucast va \<noteq> b"
proof -
  have "unat (ucast va :: 64 word) \<noteq> 0"
    using assms by (simp add: ucast_rva_unat unat_eq_0)
  then have "(ucast va :: 64 word) \<noteq> 0"
    by (simp add: unat_eq_0)
  then show ?thesis by simp
qed

lemma C_string_take_field:
  "length field = n \<Longrightarrow> take n (C_string field) = C_string field"
  by (simp add: C_string_def) (metis length_takeWhile_le take_all)

lemma examine_section_take:
  "examine_section mem b (take IMAGE_SIZEOF_SHORT_NAME nm) p = examine_section mem b nm p"
proof -
  have "strncmp (c_str (take IMAGE_SIZEOF_SHORT_NAME nm)) (chars_at mem p) IMAGE_SIZEOF_SHORT_NAME
        = strncmp (c_str nm) (chars_at mem p) IMAGE_SIZEOF_SHORT_NAME"
    by (rule strncmp_cong) (simp_all add: c_str_take)
  then show ?thesis by (simp add: examine_section_def Let_def split: option.split)
qed

lemma scan_sections_take:
  "scan_sections mem b (take IMAGE_SIZEOF_SHORT_NAME nm) p n = scan_sections mem b nm p n"
  by (induction n arbitrary: p) (simp_all add: examine_section_take split: option.split)

subsection \<open>How names are compared\<close>

text \<open>
  Claim C1, as amended. The comparison of \<^verbatim>\<open>sml_findSection\<close> is \<^verbatim>\<open>strncmp\<close> bounded by
  eight characters: for an entry whose fields can be read, the body of the loop reports the
  entry exactly when its relative address is nonzero, its start is non-null, its size is
  above zero, and the requested name and the name field are equal as C strings cut at
  eight bytes, that is, on every byte up to the first NUL or the eighth byte. Bytes after
  a NUL are not compared.
\<close>

theorem name_comparison_is_strncmp:
  assumes "read_entry mem section = Some e"
  shows "examine_section mem b sectionName section = Some (Some s) \<longleftrightarrow>
           entry_rva e \<noteq> 0 \<and> spec_start b e \<noteq> 0 \<and> 0 < spec_size e
           \<and> take 8 (C_string sectionName) = C_string (entry_name e)
           \<and> s = \<lparr>start = spec_start b e, size_bytes = spec_size e\<rparr>"
proof -
  from assms have "read_bytes mem section IMAGE_SIZEOF_SHORT_NAME = Some (entry_name e)"
    by (auto simp: read_entry_def split: option.splits)
  from read_bytes_nth [OF this] have len: "length (entry_name e) = 8"
    by (simp add: IMAGE_SIZEOF_SHORT_NAME_def)
  have "name_matches sectionName (entry_name e)
        \<longleftrightarrow> take 8 (C_string sectionName) = C_string (entry_name e)"
    by (simp add: name_matches_def C_string_take_field [OF len])
  then show ?thesis
    by (auto simp: examine_section_read_entry [OF assms] spec_candidate_def)
qed

text \<open>
  The theorem at the entry of \<open>nul_section\<close>, whose name field \<^verbatim>\<open>AB\0XYZ\0\0\<close> is reported
  for the requested bytes \<^verbatim>\<open>AB\0CDE\0\0\<close>.
\<close>

theorem name_comparison_is_strncmp_witness:
  "read_entry (map_buffer 0x10000 nul_section) 0x10058
     = Some \<lparr>entry_name = AB_XYZ, entry_virtual_size = 16, entry_rva = 128, entry_raw_size = 16\<rparr>
   \<and> take 8 (C_string AB_CDE) = C_string AB_XYZ
   \<and> examine_section (map_buffer 0x10000 nul_section) 0x10000 AB_CDE 0x10058
       = Some (Some \<lparr>start = 0x10080, size_bytes = 16\<rparr>)"
proof -
  have e: "read_entry (map_buffer 0x10000 nul_section) 0x10058
             = Some \<lparr>entry_name = AB_XYZ, entry_virtual_size = 16, entry_rva = 128,
                     entry_raw_size = 16\<rparr>"
    by code_simp
  have c: "take 8 (C_string AB_CDE) = C_string AB_XYZ"
    by code_simp
  have "examine_section (map_buffer 0x10000 nul_section) 0x10000 AB_CDE 0x10058
          = Some (Some \<lparr>start = 0x10080, size_bytes = 16\<rparr>)"
    using c name_comparison_is_strncmp [OF e, of "0x10000" AB_CDE "\<lparr>start = 0x10080, size_bytes = 16\<rparr>"]
    by (simp add: spec_start_def spec_size_def)
  with e c show ?thesis by simp
qed

text \<open>
  Claim C1 as stated fails: the name field and the requested name agree up to an embedded
  NUL and differ at index 3, after it, and the section is found all the same.
\<close>

theorem embedded_nul_counterexample:
  "read_bytes (map_buffer 0x10000 nul_section) 0x10058 8 = Some AB_XYZ
   \<and> AB_XYZ ! 3 \<noteq> AB_CDE ! 3
   \<and> sml_findSection (map_buffer 0x10000 nul_section) main_image AB_CDE
       = Some (Section_Found \<lparr>start = 0x10080, size_bytes = 16\<rparr>)"
  by code_simp

subsection \<open>Requested names longer than eight bytes\<close>

text \<open>
  Claim C2, as amended. Only the first eight bytes of the requested name are compared: the
  search for a name gives what the search for its first eight bytes gives. A longer name
  therefore matches an entry whose name field holds its first eight bytes.
\<close>

theorem findSection_first_eight_bytes:
  "sml_findSection mem img sectionName = sml_findSection mem img (take 8 sectionName)"
  by (simp add: sml_findSection_def Let_def
        scan_sections_take [unfolded IMAGE_SIZEOF_SHORT_NAME_def] split: option.split)

text \<open>
  Claim C2 as stated fails: the nine-byte name \<^verbatim>\<open>TESTDATAX\<close>, without a NUL, finds the
  section whose name field is \<^verbatim>\<open>TESTDATA\<close>.
\<close>

theorem long_name_counterexample:
  "length TESTDATAX = 9 \<and> 0 \<notin> set TESTDATAX
   \<and> read_bytes (map_buffer 0x10000 eight_section) 0x10058 8 = Some (take 8 TESTDATAX)
   \<and> sml_findSection (map_buffer 0x10000 eight_section) main_image TESTDATAX
       = Some (Section_Found \<lparr>start = 0x10080, size_bytes = 16\<rparr>)"
  by code_simp

subsection \<open>The section returned on success\<close>

text \<open>
  Claim C3, as amended. Whenever \<^verbatim>\<open>sml_findSection\<close> succeeds, the size returned is above
  zero, the start is non-null and is the base of the image plus the nonzero relative
  virtual address declared by an entry of the section table. For an image of
  \<open>moduleSize\<close> bytes, the start lies in the range from \<open>base\<close> to \<open>base + moduleSize\<close>
  exactly when that declared address is below \<open>moduleSize\<close>: the function does not compare
  the two.
\<close>

theorem findSection_success:
  assumes "sml_findSection mem img sectionName = Some (Section_Found s)"
    and "unat (base img) + moduleSize \<le> 2 ^ 64"
  shows "0 < size_bytes s \<and> start s \<noteq> 0
         \<and> (\<exists>e \<in> set (section_entries mem img). \<exists>va.
               VirtualAddress mem e = Some va \<and> va \<noteq> 0 \<and> start s = base img + ucast va
               \<and> ((base img \<le> start s \<and> unat (start s) < unat (base img) + moduleSize)
                    \<longleftrightarrow> unat va < moduleSize))"
proof -
  from findSection_found [OF assms(1)] obtain e where e: "e \<in> set (section_entries mem img)"
    and ex: "examine_section mem (base img) sectionName e = Some (Some s)"
    by blast
  from examine_section_SomeD [OF ex] obtain va and vs rs :: "32 word"
    where va: "VirtualAddress mem e = Some va"
    and nz: "va \<noteq> 0" and s: "s = \<lparr>start = base img + ucast va, size_bytes = ucast (min vs rs)\<rparr>"
    and st: "base img + ucast va \<noteq> 0" and sz: "0 < (ucast (min vs rs) :: 64 word)"
    by blast
  have "(base img \<le> start s \<and> unat (start s) < unat (base img) + moduleSize)
          \<longleftrightarrow> unat va < moduleSize"
    using start_in_range_iff [OF assms(2), of va] by (simp add: s)
  with e va nz s st sz show ?thesis by auto
qed

text \<open>The theorem at \<open>one_section\<close>, an image of 144 bytes with its section at offset 128.\<close>

theorem findSection_success_witness:
  "sml_findSection (map_buffer 0x10000 one_section) main_image TESTDAT
     = Some (Section_Found \<lparr>start = 0x10080, size_bytes = 16\<rparr>)
   \<and> unat (base main_image) + 144 \<le> 2 ^ 64
   \<and> (0 < size_bytes \<lparr>start = 0x10080, size_bytes = 16\<rparr>
        \<and> start \<lparr>start = 0x10080, size_bytes = 16\<rparr> \<noteq> 0
        \<and> (\<exists>e \<in> set (section_entries (map_buffer 0x10000 one_section) main_image). \<exists>va.
               VirtualAddress (map_buffer 0x10000 one_section) e = Some va \<and> va \<noteq> 0
               \<and> start \<lparr>start = 0x10080, size_bytes = 16\<rparr> = base main_image + ucast va
               \<and> ((base main_image \<le> start \<lparr>start = 0x10080, size_bytes = 16\<rparr>
                     \<and> unat (start \<lparr>start = 0x10080, size_bytes = 16\<rparr>)
                         < unat (base main_image) + 144)
                    \<longleftrightarrow> unat va < 144)))"
proof -
  have f: "sml_findSection (map_buffer 0x10000 one_section) main_image TESTDAT
             = Some (Section_Found \<lparr>start = 0x10080, size_bytes = 16\<rparr>)"
    by code_simp
  have r: "unat (base main_image) + 144 \<le> 2 ^ 64"
    by (simp add: main_image_def)
  show ?thesis
    by (rule conjI [OF f conjI [OF r findSection_success [OF f r]]])
qed

text \<open>
  Claim C3 as stated fails: in the 128-byte image \<open>far_section\<close> the section is found with a
  start 4096 bytes above the base, outside the image and not mapped.
\<close>

theorem start_in_range_counterexample:
  "sml_findSection (map_buffer 0x10000 far_section) main_image TESTDAT
     = Some (Section_Found \<lparr>start = 0x11000, size_bytes = 16\<rparr>)
   \<and> length far_section = 128
   \<and> \<not> (0x11000 :: addr) < 0x10000 + 128
   \<and> map_buffer 0x10000 far_section 0x11000 = None"
  by code_simp


subsection \<open>The search through the table\<close>

text \<open>
  Claim C4. For an image whose first header gives a strictly positive \<^verbatim>\<open>e_lfanew\<close>, whose
  second header is non-null and carries the signature, and whose section table can be read,
  \<^verbatim>\<open>sml_findSection\<close> returns what the specification's search returns on the entries
  taken in table order up to the declared count: the start and the size, the minimum of
  the declared virtual size and the declared raw-data size, of the first entry with a
  nonzero relative virtual address, a size above zero, a non-null start and a matching
  name, and not-found when the table has no such entry.
\<close>

theorem findSection_first_match:
  assumes "e_lfanew mem (base img) = Some lfanew" and "0 < sint lfanew"
    and "base img + scast lfanew \<noteq> 0"
    and "Signature mem (base img + scast lfanew) = Some IMAGE_NT_SIGNATURE"
    and "NumberOfSections mem (base img + scast lfanew) = Some sectionCount"
    and "IMAGE_FIRST_SECTION mem (base img + scast lfanew) = Some table"
    and "map (read_entry mem) (entry_addrs table (unat sectionCount)) = map Some entries"
  shows "sml_findSection mem img sectionName
           = Some (spec_findSection (base img) sectionName entries)"
  using assms(1-6) scan_sections_refines [OF assms(7)]
  by (simp add: sml_findSection_def Let_def)

text \<open>
  The theorem at \<open>two_sections\<close>: the first entry is passed over, the second is returned
  with the smaller of its two sizes.
\<close>

theorem findSection_first_match_witness:
  "sml_findSection (map_buffer 0x10000 two_sections) main_image TESTDAT
     = Some (spec_findSection (base main_image) TESTDAT
         [\<lparr>entry_name = name_field TESTDAT, entry_virtual_size = 16, entry_rva = 0,
            entry_raw_size = 16\<rparr>,
          \<lparr>entry_name = name_field TESTDAT, entry_virtual_size = 32, entry_rva = 168,
            entry_raw_size = 8\<rparr>])
   \<and> spec_findSection (base main_image) TESTDAT
         [\<lparr>entry_name = name_field TESTDAT, entry_virtual_size = 16, entry_rva = 0,
            entry_raw_size = 16\<rparr>,
          \<lparr>entry_name = name_field TESTDAT, entry_virtual_size = 32, entry_rva = 168,
            entry_raw_size = 8\<rparr>]
       = Section_Found \<lparr>start = 0x100A8, size_bytes = 8\<rparr>"
proof -
  let ?mem = "map_buffer 0x10000 two_sections"
  have h1: "e_lfanew ?mem (base main_image) = Some 64"
    by code_simp
  have h2: "0 < sint (64 :: 32 word)"
    by simp
  have h3: "base main_image + scast (64 :: 32 word) \<noteq> 0"
    by code_simp
  have h4: "Signature ?mem (base main_image + scast (64 :: 32 word)) = Some IMAGE_NT_SIGNATURE"
    by code_simp
  have h5: "NumberOfSections ?mem (base main_image + scast (64 :: 32 word)) = Some 2"
    by code_simp
  have h6: "IMAGE_FIRST_SECTION ?mem (base main_image + scast (64 :: 32 word)) = Some 0x10058"
    by code_simp
  have h7: "map (read_entry ?mem) (entry_addrs 0x10058 (unat (2 :: 16 word)))
              = map Some
                  [\<lparr>entry_name = name_field TESTDAT, entry_virtual_size = 16, entry_rva = 0,
                     entry_raw_size = 16\<rparr>,
                   \<lparr>entry_name = name_field TESTDAT, entry_virtual_size = 32, entry_rva = 168,
                     entry_raw_size = 8\<rparr>]"
    by code_simp
  have r: "spec_findSection (base main_image) TESTDAT
             [\<lparr>entry_name = name_field TESTDAT, entry_virtual_size = 16, entry_rva = 0,
                entry_raw_size = 16\<rparr>,
              \<lparr>entry_name = name_field TESTDAT, entry_virtual_size = 32, entry_rva = 168,
                entry_raw_size = 8\<rparr>]
           = Section_Found \<lparr>start = 0x100A8, size_bytes = 8\<rparr>"
    by code_simp
  show ?thesis
    by (rule conjI [OF findSection_first_match [OF h1 h2 h3 h4 h5 h6 h7] r])
qed

subsection \<open>Invalid image format\<close>

text \<open>
  Claim C5. When the \<^verbatim>\<open>e_lfanew\<close> field can be read, and the signature field where the
  function reads it, \<^verbatim>\<open>sml_findSection\<close> returns \<^verbatim>\<open>false\<close> from one of its two header
  checks exactly when \<^verbatim>\<open>e_lfanew\<close> is not strictly positive or the signature is not
  \<^verbatim>\<open>IMAGE_NT_SIGNATURE\<close>; in each of these cases the call returns, with the result
  \<^verbatim>\<open>false\<close> and \<^verbatim>\<open>*outSection\<close> as it was. The address
  \<open>base + e_lfanew\<close> of the second header is taken to be non-null, as it is for every header
  that lies above the base of its image; the function tests it together with the signature.
\<close>

theorem invalid_image_format_iff:
  assumes "e_lfanew mem (base img) = Some lfanew"
    and "0 < sint lfanew \<Longrightarrow> Signature mem (base img + scast lfanew) = Some sig"
    and "base img + scast lfanew \<noteq> 0"
  shows "(sml_findSection mem img sectionName = Some Invalid_Image_Format
           \<longleftrightarrow> sint lfanew \<le> 0 \<or> sig \<noteq> IMAGE_NT_SIGNATURE)
         \<and> (sint lfanew \<le> 0 \<or> sig \<noteq> IMAGE_NT_SIGNATURE
           \<longrightarrow> map_option (returned outSection) (sml_findSection mem img sectionName)
                 = Some (False, outSection))"
proof -
  have iff: "sml_findSection mem img sectionName = Some Invalid_Image_Format
           \<longleftrightarrow> sint lfanew \<le> 0 \<or> sig \<noteq> IMAGE_NT_SIGNATURE"
  proof (cases "sint lfanew \<le> 0")
    case True
    with assms(1) show ?thesis by (simp add: sml_findSection_def Let_def)
  next
    case False
    then have sig: "Signature mem (base img + scast lfanew) = Some sig"
      using assms(2) by simp
    show ?thesis
      using False assms(1,3) sig
      by (auto simp: sml_findSection_def Let_def scan_sections_not_invalid split: option.splits)
  qed
  then show ?thesis by auto
qed

text \<open>
  The theorem on a buffer of zeros, where the first check fails, and on \<open>one_section\<close>,
  where both checks pass.
\<close>

theorem invalid_image_format_iff_witness:
  "sml_findSection (map_buffer 0x10000 zero_buffer) main_image TESTDAT
     = Some Invalid_Image_Format
   \<and> sml_findSection (map_buffer 0x10000 one_section) main_image TESTDAT
     \<noteq> Some Invalid_Image_Format"
proof -
  have a1: "e_lfanew (map_buffer 0x10000 zero_buffer) (base main_image) = Some 0"
    by code_simp
  have a2: "0 < sint (0 :: 32 word)
    \<Longrightarrow> Signature (map_buffer 0x10000 zero_buffer) (base main_image + scast (0 :: 32 word)) = Some 0"
    by simp
  have a3: "base main_image + scast (0 :: 32 word) \<noteq> 0"
    by code_simp
  have b1: "e_lfanew (map_buffer 0x10000 one_section) (base main_image) = Some 64"
    by code_simp
  have b2: "Signature (map_buffer 0x10000 one_section) (base main_image + scast (64 :: 32 word))
              = Some 0x4550"
    by code_simp
  have b3: "base main_image + scast (64 :: 32 word) \<noteq> 0"
    by code_simp
  show ?thesis
    using invalid_image_format_iff [OF a1 a2 a3, of TESTDAT, THEN conjunct1]
      invalid_image_format_iff [OF b1 b2 b3, of TESTDAT, THEN conjunct1]
    by (simp add: IMAGE_NT_SIGNATURE_def)
qed

subsection \<open>What is read from a malformed image\<close>

text \<open>
  Claim C6, as amended. For every image whose \<^verbatim>\<open>e_lfanew\<close> is not strictly positive, a
  buffer of zeros among them, \<^verbatim>\<open>sml_findSection\<close> returns the failure having read the
  four bytes of that field and nothing else: it returns it in the memory where only those
  four bytes are mapped. The later reads, at \<open>base + e_lfanew\<close> and in the section table,
  are not compared with any extent of the image.
\<close>

theorem invalid_offset_reads_one_field:
  assumes "e_lfanew mem (base img) = Some lfanew" and "sint lfanew \<le> 0"
  shows "sml_findSection
           (mem |` {base img + 60, base img + 61, base img + 62, base img + 63})
           img sectionName = Some Invalid_Image_Format"
proof -
  have "e_lfanew (mem |` {base img + 60, base img + 61, base img + 62, base img + 63}) (base img)
          = e_lfanew mem (base img)"
    by (simp add: e_lfanew_def read_u32_def restrict_map_def add.assoc)
  with assms show ?thesis by (simp add: sml_findSection_def Let_def)
qed

text \<open>The theorem on a buffer of 64 zero bytes.\<close>

theorem invalid_offset_reads_one_field_witness:
  "e_lfanew (map_buffer 0x10000 zero_buffer) (base main_image) = Some 0
   \<and> sml_findSection
       (map_buffer 0x10000 zero_buffer
          |` {base main_image + 60, base main_image + 61, base main_image + 62,
              base main_image + 63})
       main_image TESTDAT = Some Invalid_Image_Format"
proof -
  have a: "e_lfanew (map_buffer 0x10000 zero_buffer) (base main_image) = Some 0"
    by code_simp
  have b: "sint (0 :: 32 word) \<le> 0"
    by simp
  show ?thesis
    by (rule conjI [OF a invalid_offset_reads_one_field [OF a b]])
qed

text \<open>
  Claim C6 as stated fails: for a 64-byte buffer whose \<^verbatim>\<open>e_lfanew\<close> is 4096 the function
  reads the signature 4096 bytes above the base, outside the buffer, and the call does not
  return.
\<close>

theorem unchecked_header_offset_counterexample:
  "length dangling_header = 64
   \<and> e_lfanew (map_buffer 0x10000 dangling_header) (base main_image) = Some 0x1000
   \<and> map_buffer 0x10000 dangling_header (base main_image + 0x1000) = None
   \<and> sml_findSection (map_buffer 0x10000 dangling_header) main_image TESTDAT = None"
  by code_simp

subsection \<open>Entries with a zero relative virtual address\<close>

text \<open>
  Claim C9. The body of the loop passes over every entry whose declared relative virtual
  address is zero, whatever its name and its other fields are; and a section that
  \<^verbatim>\<open>sml_findSection\<close> returns is reported for an entry of the table whose relative virtual
  address is not zero, so that its start differs from the base of the image.
\<close>

theorem zero_rva_never_reported:
  "(\<forall>section. VirtualAddress mem section = Some 0
       \<longrightarrow> examine_section mem (base img) sectionName section = Some None)
   \<and> (\<forall>s. sml_findSection mem img sectionName = Some (Section_Found s)
       \<longrightarrow> (\<exists>section \<in> set (section_entries mem img). \<exists>va.
              examine_section mem (base img) sectionName section = Some (Some s)
              \<and> VirtualAddress mem section = Some va \<and> va \<noteq> 0
              \<and> start s = base img + ucast va \<and> start s \<noteq> base img))"
proof (intro conjI allI impI)
  fix sec assume "VirtualAddress mem sec = Some 0"
  then show "examine_section mem (base img) sectionName sec = Some None"
    by (simp add: examine_section_def)
next
  fix s assume "sml_findSection mem img sectionName = Some (Section_Found s)"
  from findSection_found [OF this] obtain e where e: "e \<in> set (section_entries mem img)"
    and ex: "examine_section mem (base img) sectionName e = Some (Some s)"
    by blast
  from examine_section_SomeD [OF ex] obtain va and vs rs :: "32 word"
    where va: "VirtualAddress mem e = Some va" and nz: "va \<noteq> 0"
      and s: "s = \<lparr>start = base img + ucast va, size_bytes = ucast (min vs rs)\<rparr>"
    by blast
  have "start s \<noteq> base img"
    using start_neq_base [OF nz] by (simp add: s)
  with e ex va nz s
  show "\<exists>section \<in> set (section_entries mem img). \<exists>va.
          examine_section mem (base img) sectionName section = Some (Some s)
          \<and> VirtualAddress mem section = Some va \<and> va \<noteq> 0
          \<and> start s = base img + ucast va \<and> start s \<noteq> base img"
    by auto
qed

text \<open>
  The theorem at \<open>two_sections\<close>: the entry at offset 88 is named \<^verbatim>\<open>TESTDAT\<close>, has nonzero
  sizes and a zero relative address, and the section returned is the second one.
\<close>

theorem zero_rva_never_reported_witness:
  "VirtualAddress (map_buffer 0x10000 two_sections) 0x10058 = Some 0
   \<and> examine_section (map_buffer 0x10000 two_sections) (base main_image) TESTDAT 0x10058
       = Some None
   \<and> sml_findSection (map_buffer 0x10000 two_sections) main_image TESTDAT
       = Some (Section_Found \<lparr>start = 0x100A8, size_bytes = 8\<rparr>)
   \<and> (\<exists>sec \<in> set (section_entries (map_buffer 0x10000 two_sections) main_image). \<exists>va.
         examine_section (map_buffer 0x10000 two_sections) (base main_image) TESTDAT sec
           = Some (Some \<lparr>start = 0x100A8, size_bytes = 8\<rparr>)
         \<and> VirtualAddress (map_buffer 0x10000 two_sections) sec = Some va \<and> va \<noteq> 0
         \<and> start \<lparr>start = 0x100A8, size_bytes = 8\<rparr> = base main_image + ucast va
         \<and> start \<lparr>start = 0x100A8, size_bytes = 8\<rparr> \<noteq> base main_image)"
proof -
  let ?mem = "map_buffer 0x10000 two_sections"
  note inst = zero_rva_never_reported [of ?mem main_image TESTDAT]
  have z: "VirtualAddress ?mem 0x10058 = Some 0"
    by code_simp
  have f: "sml_findSection ?mem main_image TESTDAT
             = Some (Section_Found \<lparr>start = 0x100A8, size_bytes = 8\<rparr>)"
    by code_simp
  from inst z have skipped: "examine_section ?mem (base main_image) TESTDAT 0x10058 = Some None"
    by blast
  from inst f have reported:
    "\<exists>sec \<in> set (section_entries ?mem main_image). \<exists>va.
         examine_section ?mem (base main_image) TESTDAT sec
           = Some (Some \<lparr>start = 0x100A8, size_bytes = 8\<rparr>)
         \<and> VirtualAddress ?mem sec = Some va \<and> va \<noteq> 0
         \<and> start \<lparr>start = 0x100A8, size_bytes = 8\<rparr> = base main_image + ucast va
         \<and> start \<lparr>start = 0x100A8, size_bytes = 8\<rparr> \<noteq> base main_image"
    by blast
  show ?thesis
    by (rule conjI [OF z conjI [OF skipped conjI [OF f reported]]])
qed


section \<open>Properties of the enumeration\<close>

lemma enumerate_loop_visit_handles:
  "hModuleCount \<le> length hModules \<Longrightarrow>
   enumerate_loop p body hModules hModuleCount i ctx
     = visit_handles p body (drop i (take hModuleCount hModules)) ctx"
proof (induction p body hModules hModuleCount i ctx rule: enumerate_loop.induct)
  case (1 p body hModules hModuleCount i ctx)
  show ?case
  proof (cases "i < hModuleCount")
    case False
    then show ?thesis by simp
  next
    case True
    with "1.prems" have d: "drop i (take hModuleCount hModules)
        = hModules ! i # drop (i + 1) (take hModuleCount hModules)"
      by (simp add: Cons_nth_drop_Suc [symmetric])
    obtain stop ctx' where b: "body (SMLImage_of p (hModules ! i)) ctx = (stop, ctx')"
      by (cases "body (SMLImage_of p (hModules ! i)) ctx")
    show ?thesis
    proof (cases stop)
      case True
      with \<open>i < hModuleCount\<close> b d show ?thesis
        by (subst enumerate_loop.simps) simp
    next
      case False
      have "enumerate_loop p body hModules hModuleCount (i + 1) ctx'
              = visit_handles p body (drop (i + 1) (take hModuleCount hModules)) ctx'"
        using "1.IH" [OF True refl b [symmetric] refl] False "1.prems" by simp
      with \<open>i < hModuleCount\<close> b d False show ?thesis
        by (subst enumerate_loop.simps) simp
    qed
  qed
qed


lemma base_SMLImage_of: "base (SMLImage_of p h) = h"
  by (simp add: SMLImage_of_def split: prod.split)

lemma SMLImage_of_modules_update: "SMLImage_of (p\<lparr>modules := x\<rparr>) = SMLImage_of p"
  by (rule ext) (simp add: SMLImage_of_def)

lemma visit_handles_Cons_calls:
  "snd (visit_handles p body (h # hs) ctx)
     = (SMLImage_of p h, fst (body (SMLImage_of p h) ctx))
       # (if fst (body (SMLImage_of p h) ctx) then []
          else snd (visit_handles p body hs (snd (body (SMLImage_of p h) ctx))))"
proof -
  obtain stop ctx' where b: "body (SMLImage_of p h) ctx = (stop, ctx')"
    by (cases "body (SMLImage_of p h) ctx")
  obtain ctx'' calls where r: "visit_handles p body hs ctx' = (ctx'', calls)"
    by (cases "visit_handles p body hs ctx'")
  show ?thesis by (simp add: b r)
qed

lemma visit_handles_modules_update:
  "visit_handles (p\<lparr>modules := x\<rparr>) body hs ctx = visit_handles p body hs ctx"
proof (induction hs arbitrary: ctx)
  case Nil
  show ?case by simp
next
  case (Cons h hs)
  obtain stop ctx' where b: "body (SMLImage_of p h) ctx = (stop, ctx')"
    by (cases "body (SMLImage_of p h) ctx")
  show ?case by (simp add: SMLImage_of_modules_update b Cons.IH Let_def)
qed

lemma visit_handles_length:
  "length (snd (visit_handles p body hs ctx)) \<le> length hs"
proof (induction hs arbitrary: ctx)
  case Nil
  show ?case by simp
next
  case (Cons h hs)
  show ?case
    using Cons.IH [of "snd (body (SMLImage_of p h) ctx)"]
    by (simp add: visit_handles_Cons_calls del: visit_handles.simps)
qed

lemma visit_handles_images:
  "map fst (snd (visit_handles p body hs ctx))
     = map (SMLImage_of p) (take (length (snd (visit_handles p body hs ctx))) hs)"
proof (induction hs arbitrary: ctx)
  case Nil
  show ?case by simp
next
  case (Cons h hs)
  show ?case
    using Cons.IH [of "snd (body (SMLImage_of p h) ctx)"]
    by (simp add: visit_handles_Cons_calls del: visit_handles.simps)
qed

lemma visit_handles_stop_last:
  "k < length (snd (visit_handles p body hs ctx))
   \<Longrightarrow> snd (snd (visit_handles p body hs ctx) ! k)
   \<Longrightarrow> Suc k = length (snd (visit_handles p body hs ctx))"
proof (induction hs arbitrary: ctx k)
  case Nil
  then show ?case by simp
next
  case (Cons h hs)
  show ?case
  proof (cases k)
    case 0
    with Cons.prems show ?thesis
      by (simp add: visit_handles_Cons_calls del: visit_handles.simps split: if_splits)
  next
    case (Suc j)
    with Cons.prems Cons.IH [of j "snd (body (SMLImage_of p h) ctx)"] show ?thesis
      by (simp add: visit_handles_Cons_calls del: visit_handles.simps split: if_splits)
  qed
qed

lemma visit_handles_no_stop:
  "\<forall>c \<in> set (snd (visit_handles p body hs ctx)). \<not> snd c
   \<Longrightarrow> length (snd (visit_handles p body hs ctx)) = length hs"
proof (induction hs arbitrary: ctx)
  case Nil
  show ?case by simp
next
  case (Cons h hs)
  then show ?case
    using Cons.IH [of "snd (body (SMLImage_of p h) ctx)"]
    by (simp add: visit_handles_Cons_calls del: visit_handles.simps split: if_splits)
qed

lemma unat_needed:
  "unat (of_nat (n * sizeof_HMODULE) :: 32 word) = (n * 8) mod 2 ^ 32"
  unfolding sizeof_HMODULE_def unat_of_nat by simp

lemma needed_count_le:
  "min 1024 (unat (of_nat (length ms * sizeof_HMODULE) :: 32 word) div sizeof_HMODULE)
     \<le> length (take (1024 * sizeof_HMODULE div sizeof_HMODULE) ms)"
proof -
  have "(length ms * 8) mod 2 ^ 32 \<le> length ms * 8"
    by (rule mod_less_eq_dividend)
  then have "(length ms * 8) mod 2 ^ 32 div 8 \<le> length ms"
    by simp
  then have "unat (of_nat (length ms * sizeof_HMODULE) :: 32 word) div sizeof_HMODULE \<le> length ms"
    by (simp only: unat_needed) (simp add: sizeof_HMODULE_def)
  moreover have "1024 * sizeof_HMODULE div sizeof_HMODULE = 1024"
    by (simp add: sizeof_HMODULE_def)
  ultimately show ?thesis
    by (simp only: length_take)
qed

lemma needed_count_eq:
  assumes "length ms < 2 ^ 29"
  shows "min 1024 (unat (of_nat (length ms * sizeof_HMODULE) :: 32 word) div sizeof_HMODULE)
           = min 1024 (length ms)"
proof -
  from assms have "length ms * 8 < 2 ^ 32" by simp
  then have "(length ms * 8) mod 2 ^ 32 = length ms * 8"
    by (rule mod_less)
  then have "unat (of_nat (length ms * sizeof_HMODULE) :: 32 word) div sizeof_HMODULE = length ms"
    by (simp only: unat_needed) (simp add: sizeof_HMODULE_def)
  then show ?thesis by (simp only:)
qed

lemma enumerateImages_visit_handles:
  assumes "modules p = Some ms"
  shows "sml_enumerateImages p body ctx
           = visit_handles p body
               (take (min 1024 (unat (of_nat (length ms * sizeof_HMODULE) :: 32 word)
                  div sizeof_HMODULE)) (take 1024 ms)) ctx"
proof -
  have k: "1024 * sizeof_HMODULE div sizeof_HMODULE = 1024"
    by (simp add: sizeof_HMODULE_def)
  have "sml_enumerateImages p body ctx
          = enumerate_loop p body (take (1024 * sizeof_HMODULE div sizeof_HMODULE) ms)
              (min 1024 (unat (of_nat (length ms * sizeof_HMODULE) :: 32 word)
                  div sizeof_HMODULE)) 0 ctx"
    by (simp only: sml_enumerateImages_def EnumProcessModules_def assms option.case
          prod.case Let_def)
  also have "\<dots> = visit_handles p body
      (drop 0 (take (min 1024 (unat (of_nat (length ms * sizeof_HMODULE) :: 32 word)
                  div sizeof_HMODULE)) (take (1024 * sizeof_HMODULE div sizeof_HMODULE) ms))) ctx"
    by (rule enumerate_loop_visit_handles [OF needed_count_le])
  finally show ?thesis by (simp only: k drop_0)
qed

lemma enumerateImages_snapshot:
  assumes "modules p = Some ms" and "length ms < 2 ^ 29"
  shows "sml_enumerateImages p body ctx = visit_handles p body (take 1024 ms) ctx"
proof -
  have "take (min 1024 (length ms)) (take 1024 ms) = take 1024 ms"
    by (cases "1024 \<le> length ms") (simp_all add: min_def)
  then show ?thesis
    by (simp only: enumerateImages_visit_handles [OF assms(1)] needed_count_eq [OF assms(2)])
qed

subsection \<open>One visit for each module of the snapshot\<close>

text \<open>
  Claim C7. The snapshot is what the query leaves in the array of 1024 handles: the loaded
  modules, or the first 1024 of them. The images passed to the visitor are the images of
  the handles of the snapshot, one call for each handle, in the order of the snapshot, up
  to the last call made; a call that leaves \<^verbatim>\<open>stop\<close> set is the last call; when no call
  sets it, every handle of the snapshot is visited; and when the modules are distinct, no
  module is visited twice. The byte count that the query reports is a \<^verbatim>\<open>DWORD\<close>: the
  statement is for module lists whose byte count it can hold.
\<close>

theorem enumerateImages_visits_snapshot:
  assumes "modules p = Some ms" and "length ms < 2 ^ 29"
  shows "map fst (snd (sml_enumerateImages p body ctx))
           = map (SMLImage_of p)
               (take (length (snd (sml_enumerateImages p body ctx))) (take 1024 ms))
         \<and> (\<forall>k < length (snd (sml_enumerateImages p body ctx)).
               snd (snd (sml_enumerateImages p body ctx) ! k)
               \<longrightarrow> Suc k = length (snd (sml_enumerateImages p body ctx)))
         \<and> ((\<forall>c \<in> set (snd (sml_enumerateImages p body ctx)). \<not> snd c)
               \<longrightarrow> length (snd (sml_enumerateImages p body ctx)) = length (take 1024 ms))
         \<and> (distinct ms
               \<longrightarrow> distinct (map (base \<circ> fst) (snd (sml_enumerateImages p body ctx))))"
proof -
  let ?calls = "snd (visit_handles p body (take 1024 ms) ctx)"
  have eq: "sml_enumerateImages p body ctx = visit_handles p body (take 1024 ms) ctx"
    by (rule enumerateImages_snapshot [OF assms])
  have images: "map fst ?calls = map (SMLImage_of p) (take (length ?calls) (take 1024 ms))"
    by (rule visit_handles_images)
  have stop: "\<forall>k < length ?calls. snd (?calls ! k) \<longrightarrow> Suc k = length ?calls"
    by (intro allI impI) (rule visit_handles_stop_last)
  have all: "(\<forall>c \<in> set ?calls. \<not> snd c) \<longrightarrow> length ?calls = length (take 1024 ms)"
    by (intro impI) (rule visit_handles_no_stop)
  have once: "distinct (map (base \<circ> fst) ?calls)" if "distinct ms"
  proof -
    have "map (base \<circ> fst) ?calls = map base (map fst ?calls)"
      by simp
    also have "\<dots> = take (length ?calls) (take 1024 ms)"
      by (subst images) (simp add: comp_def base_SMLImage_of)
    finally show ?thesis using that by simp
  qed
  from images stop all once show ?thesis
    unfolding eq by blast
qed

text \<open>
  The theorem on a process with three modules: a visitor that stops at the second is called
  twice, a visitor that never stops three times.
\<close>

theorem enumerateImages_visits_snapshot_witness:
  "modules three_modules = Some [0x10000, 0x20000, 0x30000]
   \<and> length [0x10000, 0x20000, 0x30000 :: addr] < 2 ^ 29
   \<and> sml_enumerateImages three_modules stop_at_second 0
       = (2, [(\<lparr>base = 0x10000, name = []\<rparr>, False), (\<lparr>base = 0x20000, name = []\<rparr>, True)])
   \<and> map fst (snd (sml_enumerateImages three_modules stop_at_second 0))
       = map (SMLImage_of three_modules)
           (take (length (snd (sml_enumerateImages three_modules stop_at_second 0)))
              (take 1024 [0x10000, 0x20000, 0x30000]))
   \<and> length (snd (sml_enumerateImages three_modules never_stop 0))
       = length (take 1024 [0x10000, 0x20000, 0x30000 :: addr])"
proof -
  have m: "modules three_modules = Some [0x10000, 0x20000, 0x30000]"
    by (simp add: three_modules_def)
  have l: "length [0x10000, 0x20000, 0x30000 :: addr] < 2 ^ 29"
    by simp
  have ev: "sml_enumerateImages three_modules stop_at_second 0
      = (2, [(\<lparr>base = 0x10000, name = []\<rparr>, False), (\<lparr>base = 0x20000, name = []\<rparr>, True)])"
    by (subst enumerateImages_snapshot [OF m l])
      (simp add: SMLImage_of_def three_modules_def stop_at_second_def)
  have no_stop: "\<forall>c \<in> set (snd (sml_enumerateImages three_modules never_stop 0)). \<not> snd c"
    by (subst enumerateImages_snapshot [OF m l])
      (simp add: SMLImage_of_def three_modules_def never_stop_def)
  note stopped = enumerateImages_visits_snapshot [OF m l, of stop_at_second 0]
  note visited = enumerateImages_visits_snapshot [OF m l, of never_stop 0]
  from visited no_stop
  have all: "length (snd (sml_enumerateImages three_modules never_stop 0))
               = length (take 1024 [0x10000, 0x20000, 0x30000 :: addr])"
    by blast
  show ?thesis
    by (rule conjI [OF m conjI [OF l conjI [OF ev conjI [OF conjunct1 [OF stopped] all]]]])
qed

subsection \<open>Failure of the query and truncation\<close>

text \<open>
  Claim C8. If the module list cannot be queried, \<^verbatim>\<open>sml_enumerateImages\<close> returns with the
  state unchanged and no call of the visitor. Otherwise the visitor is called at most 1024
  times, on images of the first 1024 modules in their order; and the enumeration of a
  process gives what the enumeration of its first 1024 modules gives, so that the caller
  cannot tell a truncated list from a complete one. The function has no result but the
  effects of the visitor: nothing reports either event.
\<close>

theorem enumerateImages_failure_and_truncation:
  "(modules p = None \<longrightarrow> sml_enumerateImages p body ctx = (ctx, []))
   \<and> (\<forall>ms. modules p = Some ms \<longrightarrow>
         length (snd (sml_enumerateImages p body ctx)) \<le> 1024
         \<and> map fst (snd (sml_enumerateImages p body ctx))
             = map (SMLImage_of p)
                 (take (length (snd (sml_enumerateImages p body ctx))) (take 1024 ms))
         \<and> (length ms < 2 ^ 29 \<longrightarrow>
               sml_enumerateImages p body ctx
                 = sml_enumerateImages (p\<lparr>modules := Some (take 1024 ms)\<rparr>) body ctx))"
proof (intro conjI allI impI)
  assume "modules p = None"
  then show "sml_enumerateImages p body ctx = (ctx, [])"
    by (simp add: sml_enumerateImages_def EnumProcessModules_def)
next
  fix ms assume ms: "modules p = Some ms"
  let ?n = "min 1024 (unat (of_nat (length ms * sizeof_HMODULE) :: 32 word) div sizeof_HMODULE)"
  let ?calls = "snd (visit_handles p body (take ?n (take 1024 ms)) ctx)"
  have eq: "sml_enumerateImages p body ctx = visit_handles p body (take ?n (take 1024 ms)) ctx"
    by (rule enumerateImages_visit_handles [OF ms])
  have "length ?calls \<le> length (take ?n (take 1024 ms))"
    by (rule visit_handles_length)
  then have len: "length ?calls \<le> ?n"
    by simp
  then show "length (snd (sml_enumerateImages p body ctx)) \<le> 1024"
    unfolding eq by simp
  have "map fst ?calls = map (SMLImage_of p) (take (length ?calls) (take ?n (take 1024 ms)))"
    by (rule visit_handles_images)
  also have "take (length ?calls) (take ?n (take 1024 ms)) = take (length ?calls) (take 1024 ms)"
    using len by (simp only: take_take min_absorb1)
  finally show "map fst (snd (sml_enumerateImages p body ctx))
             = map (SMLImage_of p)
                 (take (length (snd (sml_enumerateImages p body ctx))) (take 1024 ms))"
    unfolding eq .
next
  fix ms assume ms: "modules p = Some ms" and small: "length ms < 2 ^ 29"
  have m': "modules (p\<lparr>modules := Some (take 1024 ms)\<rparr>) = Some (take 1024 ms)"
    by simp
  have small': "length (take 1024 ms) < 2 ^ 29"
    using small by simp
  have "sml_enumerateImages (p\<lparr>modules := Some (take 1024 ms)\<rparr>) body ctx
          = visit_handles (p\<lparr>modules := Some (take 1024 ms)\<rparr>) body
              (take 1024 (take 1024 ms)) ctx"
    by (rule enumerateImages_snapshot [OF m' small'])
  also have "\<dots> = visit_handles p body (take 1024 ms) ctx"
    by (simp add: visit_handles_modules_update)
  also have "\<dots> = sml_enumerateImages p body ctx"
    by (rule enumerateImages_snapshot [OF ms small, symmetric])
  finally show "sml_enumerateImages p body ctx
                 = sml_enumerateImages (p\<lparr>modules := Some (take 1024 ms)\<rparr>) body ctx"
    by (rule sym)
qed

text \<open>
  The theorem on a process whose module list cannot be queried and on a process with 1030
  modules.
\<close>

theorem enumerateImages_failure_and_truncation_witness:
  "modules no_module_list = None
   \<and> sml_enumerateImages no_module_list never_stop 0 = (0, [])
   \<and> modules many_modules = Some (map of_nat [0..<1030])
   \<and> length (map of_nat [0..<1030] :: addr list) = 1030
   \<and> length (snd (sml_enumerateImages many_modules never_stop 0)) \<le> 1024
   \<and> sml_enumerateImages many_modules never_stop 0
       = sml_enumerateImages (many_modules\<lparr>modules := Some (take 1024 (map of_nat [0..<1030]))\<rparr>)
           never_stop 0"
proof -
  have n: "modules no_module_list = None"
    by (simp add: no_module_list_def)
  have m: "modules many_modules = Some (map of_nat [0..<1030])"
    by (simp only: many_modules_def process.select_convs)
  have l: "length (map of_nat [0..<1030] :: addr list) = 1030"
    by (simp only: length_map length_upt diff_zero)
  have s: "length (map of_nat [0..<1030] :: addr list) < 2 ^ 29"
    by (simp only: l) simp
  note failed = enumerateImages_failure_and_truncation [of no_module_list never_stop 0]
  note truncated = enumerateImages_failure_and_truncation [of many_modules never_stop 0]
  from failed n have f: "sml_enumerateImages no_module_list never_stop 0 = (0, [])"
    by blast
  from truncated m
  have t: "length (snd (sml_enumerateImages many_modules never_stop 0)) \<le> 1024"
    by blast
  from truncated m s
  have u: "sml_enumerateImages many_modules never_stop 0
       = sml_enumerateImages (many_modules\<lparr>modules := Some (take 1024 (map of_nat [0..<1030]))\<rparr>)
           never_stop 0"
    by blast
  show ?thesis
    by (rule conjI [OF n conjI [OF f conjI [OF m conjI [OF l conjI [OF t u]]]]])
qed

section \<open>Properties of the name copy\<close>

text \<open>
  Claim C10 says that every path through \<^verbatim>\<open>sml_copyImageName\<close> executes a \<^verbatim>\<open>return\<close>
  statement that produces a value. The body is empty: for every image, control reaches the
  closing brace and no pointer is returned.
\<close>

theorem copyImageName_returns_no_value:
  "sml_copyImageName img = Falls_Off_End \<and> (\<forall>p. sml_copyImageName img \<noteq> Returns p)"
  by (simp add: sml_copyImageName_def)

end
